theory Spec2Isabelle
  imports Main
begin

section \<open>Python values, exceptions and futures\<close>

text \<open>
  A \<open>Player\<close> carries the identity fields that \<open>Room.get_player\<close> and the packet
  handlers read (\<open>username\<close>, \<open>id\<close>, \<open>pid\<close>) and the back-reference \<open>trade\<close> to a
  \<open>Trade\<close> object. Trades are objects shared between \<open>Client.trade\<close>,
  \<open>Client.trades\<close> and \<open>Player.trade\<close>, so they live in a store and are named by
  their address.
\<close>

record Player =
  username :: string
  id' :: int
  pid :: int
  ptrade :: "nat option"

datatype pyval =
    VNone
  | VInt int
  | VStr string
  | VPlayer Player
  | VTrade nat
  | VClient
  | VTuple "pyval list"

datatype error =
    AiotfmException string
  | AlreadyConnected
  | IncorrectPassword
  | LoginError pyval
  | AttributeError
  | TypeError
  | ValueError
  | IndexError
  | InvalidStateError

text \<open>
  An \<open>asyncio.Future\<close> is pending, cancelled, or finished with a result or with an
  exception. \<open>set_result\<close> and \<open>set_exception\<close> raise \<open>InvalidStateError\<close> on a
  future that is not pending.
\<close>

datatype future = Pending | Cancelled | Result pyval | Exception error

definition cancelled :: "future \<Rightarrow> bool" where
  "cancelled f = (f = Cancelled)"

definition set_result :: "(nat \<Rightarrow> future) \<Rightarrow> nat \<Rightarrow> pyval \<Rightarrow> error + (nat \<Rightarrow> future)" where
  "set_result fs a v = (if fs a = Pending then Inr (fs(a := Result v)) else Inl InvalidStateError)"

definition set_exception :: "(nat \<Rightarrow> future) \<Rightarrow> nat \<Rightarrow> error \<Rightarrow> error + (nat \<Rightarrow> future)" where
  "set_exception fs a e = (if fs a = Pending then Inr (fs(a := Exception e)) else Inl InvalidStateError)"

section \<open>The client state\<close>

text \<open>One entry of \<open>Client._waiters[event]\<close>: the tuple \<open>(condition, future, stopPropagation)\<close>.\<close>

record waiter =
  cond :: "pyval list \<Rightarrow> error + bool"
  fut :: nat
  stop :: bool

record Trade =
  other :: Player
  alive :: bool
  on_invite :: bool
  items_me :: "int \<rightharpoonup> int"
  items_other :: "int \<rightharpoonup> int"
  locked_me :: bool
  locked_other :: bool

record Room =
  name :: string
  private' :: bool
  players :: "Player list"

record Connection =
  fingerprint :: int

datatype wfield = W8 int | WString string

datatype out_packet = Packet_new "int \<times> int" "wfield list"

datatype task = Run_event string "pyval list" | Heartbeat_loop

datatype callback = Close

text \<open>
  What the client does to the outside, in program order: a frame handed to
  \<open>Connection.send\<close>, a call of \<open>dispatch\<close>, a coroutine given to the event loop
  (\<open>create_task\<close>, \<open>ensure_future\<close>), a timer set with \<open>call_later\<close>, a
  report that \<open>on_error\<close> prints about an event and the exception raised for it.
\<close>

datatype action =
    Sent nat out_packet
  | Dispatched string "pyval list"
  | Scheduled task
  | Call_later int callback
  | Printed string error

record Client =
  waiters :: "string \<rightharpoonup> waiter list"
  futures :: "nat \<Rightarrow> future"
  future_count :: nat
  handlers :: "string \<Rightarrow> bool"
  room :: "Room option"
  trade :: "nat option"
  trades :: "nat list"
  trade_store :: "nat \<Rightarrow> Trade"
  conns :: "nat \<Rightarrow> Connection"
  community :: int
  authkey :: "int option"
  trace :: "action list"

section \<open>The event bus: \<open>wait_for\<close> and \<open>dispatch\<close>\<close>

definition lower_char :: "char \<Rightarrow> char" where
  "lower_char ch =
     (case map_of (zip ''ABCDEFGHIJKLMNOPQRSTUVWXYZ'' ''abcdefghijklmnopqrstuvwxyz'') ch of
        None \<Rightarrow> ch | Some l \<Rightarrow> l)"

definition lower :: "string \<Rightarrow> string" where
  "lower s = map lower_char s"

text \<open>
  \<open>wait_for\<close> creates a fresh future, defaults the condition to the constant
  \<open>True\<close>, and appends the waiter to the list kept under the lower-cased event name.
  The timeout only wraps the future and is not part of the registry.
\<close>

definition wait_for ::
  "Client \<Rightarrow> string \<Rightarrow> (pyval list \<Rightarrow> error + bool) option \<Rightarrow> bool \<Rightarrow> Client \<times> nat" where
  "wait_for c event condition stopPropagation =
     (let event = lower event;
          future = future_count c;
          c1 = c\<lparr>future_count := Suc future, futures := (futures c)(future := Pending)\<rparr>;
          condition = (case condition of None \<Rightarrow> (\<lambda>a. Inr True) | Some f \<Rightarrow> f);
          ws = (case waiters c1 event of None \<Rightarrow> [] | Some ws \<Rightarrow> ws)
      in (c1\<lparr>waiters := (waiters c1)(event \<mapsto>
              ws @ [\<lparr>cond = condition, fut = future, stop = stopPropagation\<rparr>])\<rparr>, future))"

text \<open>The value a waiter is resolved with:
  \<open>args[0] if len(args)==1 else args if len(args) else None\<close>.\<close>

definition payload :: "pyval list \<Rightarrow> pyval" where
  "payload args = (if length args = 1 then hd args else if length args \<noteq> 0 then VTuple args else VNone)"

text \<open>\<open>del waiters[i]\<close>, for an index in range.\<close>

definition del :: "'a list \<Rightarrow> nat \<Rightarrow> 'a list" where
  "del xs i = take i xs @ drop (Suc i) xs"

datatype loop_end = Raised error | Stopped nat | Completed "nat list"

text \<open>
  The loop \<open>for i, (cond, fut, stop) in enumerate(waiters)\<close> of \<open>dispatch\<close>. It carries
  the index \<open>i\<close>, the list \<open>to_remove\<close> and the futures. It ends by running off the
  list, by the early \<open>return\<close> of a stopping waiter, or by the \<open>InvalidStateError\<close>
  of a future that was already finished; the futures it has set stay set.
\<close>

fun run_waiters ::
  "pyval list \<Rightarrow> waiter list \<Rightarrow> nat \<Rightarrow> nat list \<Rightarrow> (nat \<Rightarrow> future) \<Rightarrow> (nat \<Rightarrow> future) \<times> loop_end" where
  "run_waiters args [] i to_remove fs = (fs, Completed to_remove)"
| "run_waiters args (w # ws) i to_remove fs =
     (if cancelled (fs (fut w)) then run_waiters args ws (Suc i) (to_remove @ [i]) fs
      else case cond w args of
        Inl e \<Rightarrow>
          (case set_exception fs (fut w) e of
             Inl err \<Rightarrow> (fs, Raised err)
           | Inr fs' \<Rightarrow> run_waiters args ws (Suc i) to_remove fs')
      | Inr result \<Rightarrow>
          if result then
            (case set_result fs (fut w) (payload args) of
               Inl err \<Rightarrow> (fs, Raised err)
             | Inr fs' \<Rightarrow>
                 if stop w then (fs', Stopped i)
                 else run_waiters args ws (Suc i) (to_remove @ [i]) fs')
          else run_waiters args ws (Suc i) to_remove fs)"

text \<open>The tail of \<open>dispatch\<close>: \<open>getattr(self, method, None)\<close> and \<open>ensure_future\<close>.\<close>

definition run_handler :: "Client \<Rightarrow> string \<Rightarrow> pyval list \<Rightarrow> Client \<times> (error + unit)" where
  "run_handler c method args =
     (if handlers c method then (c\<lparr>trace := trace c @ [Scheduled (Run_event method args)]\<rparr>, Inr ())
      else (c, Inr ()))"

definition dispatch :: "Client \<Rightarrow> string \<Rightarrow> pyval list \<Rightarrow> Client \<times> (error + unit)" where
  "dispatch c event args =
     (let method = ''on_'' @ event;
          c0 = c\<lparr>trace := trace c @ [Dispatched event args]\<rparr>
      in case waiters c0 method of
           None \<Rightarrow> run_handler c0 method args
         | Some ws \<Rightarrow>
             (case run_waiters args ws 0 [] (futures c0) of
                (fs, Raised e) \<Rightarrow> (c0\<lparr>futures := fs\<rparr>, Inl e)
              | (fs, Stopped i) \<Rightarrow>
                  (c0\<lparr>futures := fs, waiters := (waiters c0)(method \<mapsto> del ws i)\<rparr>, Inr ())
              | (fs, Completed to_remove) \<Rightarrow>
                  run_handler
                    (c0\<lparr>futures := fs,
                        waiters :=
                          (if length to_remove = length ws then (waiters c0)(method := None)
                           else (waiters c0)(method \<mapsto> foldl del ws (rev to_remove)))\<rparr>)
                    method args))"

text \<open>\<open>Client.__init__\<close>; the class itself defines \<open>on_error\<close>, \<open>on_connection_error\<close>
  and \<open>on_login_result\<close>.\<close>

definition Client_init :: "int \<Rightarrow> Client" where
  "Client_init commu =
     \<lparr>waiters = Map.empty,
      futures = (\<lambda>a. Pending),
      future_count = 0,
      handlers = (\<lambda>m. m = ''on_error'' \<or> m = ''on_connection_error'' \<or> m = ''on_login_result''),
      room = None,
      trade = None,
      trades = [],
      trade_store = (\<lambda>a. \<lparr>other = \<lparr>username = [], id' = 0, pid = 0, ptrade = None\<rparr>,
                             alive = False, on_invite = False,
                             items_me = Map.empty, items_other = Map.empty,
                             locked_me = False, locked_other = False\<rparr>),
      conns = (\<lambda>a. \<lparr>fingerprint = 0\<rparr>),
      community = commu,
      authkey = None,
      trace = []\<rparr>"

section \<open>The room\<close>

text \<open>
  Python's \<open>int(value)\<close> on the values that reach \<open>get_player\<close>: an integer is
  returned as it is, \<open>None\<close> raises \<open>TypeError\<close>, and text is read in base ten
  (surrounding whitespace, one optional sign, digits with single underscores between
  them) or raises \<open>ValueError\<close>. A player, a trade, the client and a tuple have no
  integer conversion.
\<close>

definition is_space :: "char \<Rightarrow> bool" where
  "is_space ch = (ch \<in> set [CHR '' '', CHR 0x09, CHR 0x0A, CHR 0x0B, CHR 0x0C, CHR 0x0D])"

definition digit_val :: "char \<Rightarrow> int option" where
  "digit_val ch = map_of (zip ''0123456789'' [0, 1, 2, 3, 4, 5, 6, 7, 8, 9]) ch"

fun py_digits :: "int \<Rightarrow> bool \<Rightarrow> string \<Rightarrow> int option" where
  "py_digits acc prev [] = (if prev then Some acc else None)"
| "py_digits acc prev (ch # cs) =
     (case digit_val ch of
        Some d \<Rightarrow> py_digits (acc * 10 + d) True cs
      | None \<Rightarrow> if ch = CHR ''_'' \<and> prev then py_digits acc False cs else None)"

definition strip :: "string \<Rightarrow> string" where
  "strip s = rev (dropWhile is_space (rev (dropWhile is_space s)))"

definition int_of_text :: "string \<Rightarrow> int option" where
  "int_of_text s =
     (case strip s of
        [] \<Rightarrow> None
      | ch # cs \<Rightarrow>
          if ch = CHR ''-'' then map_option uminus (py_digits 0 False cs)
          else if ch = CHR ''+'' then py_digits 0 False cs
          else py_digits 0 False (ch # cs))"

fun py_int :: "pyval \<Rightarrow> error + int" where
  "py_int (VInt n) = Inr n"
| "py_int (VStr s) = (case int_of_text s of None \<Rightarrow> Inl ValueError | Some n \<Rightarrow> Inr n)"
| "py_int v = Inl TypeError"

text \<open>The list comprehension of \<open>get_players\<close>: the predicate is called on every player
  in order, and the first exception it raises ends the call.\<close>

fun comprehension :: "(Player \<Rightarrow> error + bool) \<Rightarrow> Player list \<Rightarrow> error + Player list" where
  "comprehension predicate [] = Inr []"
| "comprehension predicate (p # ps) =
     (case predicate p of
        Inl e \<Rightarrow> Inl e
      | Inr b \<Rightarrow>
          (case comprehension predicate ps of
             Inl e \<Rightarrow> Inl e
           | Inr rest \<Rightarrow> Inr (if b then p # rest else rest)))"

text \<open>The slice \<open>xs[:max]\<close>: everything for \<open>None\<close>, a prefix for a count, all but the
  last \<open>-max\<close> elements for a negative one.\<close>

definition slice_to :: "'a list \<Rightarrow> int option \<Rightarrow> 'a list" where
  "slice_to xs max' =
     (case max' of
        None \<Rightarrow> xs
      | Some m \<Rightarrow> if 0 \<le> m then take (nat m) xs else take (length xs - nat (- m)) xs)"

definition get_players :: "Room \<Rightarrow> (Player \<Rightarrow> error + bool) \<Rightarrow> int option \<Rightarrow> error + Player list" where
  "get_players r predicate max' =
     (case comprehension predicate (players r) of
        Inl e \<Rightarrow> Inl e
      | Inr ps \<Rightarrow> Inr (slice_to ps max'))"

text \<open>
  \<open>get_player(**kwargs)\<close>. The keyword arguments are the list of their
  (identifier, value) pairs. The comparison \<open>p == value\<close> of the name filter is
  \<open>Player.__eq__\<close>, which the player module defines: it is the parameter \<open>eq\<close>.
\<close>

definition get_player ::
  "(Player \<Rightarrow> pyval \<Rightarrow> bool) \<Rightarrow> Room \<Rightarrow> (string \<times> pyval) list \<Rightarrow> error + Player option" where
  "get_player eq r kwargs =
     (if length kwargs = 0 then Inl (AiotfmException ''You did not provide any identifier.'')
      else if length kwargs > 1 then
        Inl (AiotfmException ''You cannot filter one player with more than one identifier.'')
      else
        let (identifier, value) = hd kwargs in
        case
          (if identifier = ''name'' \<or> identifier = ''username'' then
             Inr (\<lambda>p. Inr (eq p value))
           else if identifier = ''id'' then
             Inr (\<lambda>p. case py_int value of Inl e \<Rightarrow> Inl e | Inr n \<Rightarrow> Inr (id' p = n))
           else if identifier = ''pid'' then
             Inr (\<lambda>p. case py_int value of Inl e \<Rightarrow> Inl e | Inr n \<Rightarrow> Inr (pid p = n))
           else Inl (AiotfmException ''Invalid filter.''))
        of
          Inl e \<Rightarrow> Inl e
        | Inr filter' \<Rightarrow>
            (case get_players r filter' None of
               Inl e \<Rightarrow> Inl e
             | Inr result \<Rightarrow> if length result \<noteq> 0 then Inr (Some (hd result)) else Inr None))"

text \<open>
  Modelled from the spec: \<open>Player.__eq__\<close> is not among the sources. The spec gives a
  player a display name as its identity towards text, and \<open>get_player\<close> documents
  \<open>name\<close> and \<open>username\<close> as identifiers, so a player equals a string that is its
  username and no other value. The packet handlers only look players up by \<open>pid\<close>,
  where this comparison is never called.
\<close>

definition Player_eq :: "Player \<Rightarrow> pyval \<Rightarrow> bool" where
  "Player_eq p v = (v = VStr (username p))"

section \<open>The packet handlers\<close>

text \<open>A statement that may raise, followed by the rest of the block: the rest runs on
  the state the statement left, and an exception ends the block with that state.\<close>

definition andthen ::
  "Client \<times> (error + unit) \<Rightarrow> (Client \<Rightarrow> Client \<times> (error + 'a)) \<Rightarrow> Client \<times> (error + 'a)" where
  "andthen r k = (case r of (c, Inl e) \<Rightarrow> (c, Inl e) | (c, Inr u) \<Rightarrow> k c)"

text \<open>
  Modelled from the spec: \<open>Trade._close\<close> is defined in the inventory module, which
  is not among the sources. By the spec a closed trade is marked closed, removed from
  "current" and retained in the registry: \<open>alive\<close> becomes false, \<open>Client.trade\<close> is
  cleared when it is this trade, and \<open>Client.trades\<close> is left as it is.
\<close>

definition Trade_close :: "Client \<Rightarrow> nat \<Rightarrow> Client" where
  "Trade_close c t =
     c\<lparr>trade_store := (trade_store c)(t := (trade_store c t)\<lparr>alive := False\<rparr>),
       trade := (if trade c = Some t then None else trade c)\<rparr>"

text \<open>
  Modelled from the spec: the \<open>Player\<close> class is defined in the player module, which
  is not among the sources. By the spec a player is an identity (session id,
  persistent id, display name) and a back-reference to a trade; nothing makes it a
  sequence, so the subscript \<open>player[i]\<close> raises \<open>TypeError\<close>.
\<close>

definition Player_getitem :: "Player \<Rightarrow> int \<Rightarrow> error + Player" where
  "Player_getitem p i = Inl TypeError"

text \<open>
  Modelled from the spec: \<open>Connection.send\<close> is defined in the connection module,
  which is not among the sources. By the spec it serialises the frame and writes it
  to the connection's socket: the frame is recorded as sent on that connection.
\<close>

definition send :: "Client \<Rightarrow> nat \<Rightarrow> out_packet \<Rightarrow> Client" where
  "send c connection packet = c\<lparr>trace := trace c @ [Sent connection packet]\<rparr>"

definition write8 :: "out_packet \<Rightarrow> int \<Rightarrow> out_packet" where
  "write8 p v = (case p of Packet_new ccc buffer \<Rightarrow> Packet_new ccc (buffer @ [W8 v]))"

definition writeString :: "out_packet \<Rightarrow> string \<Rightarrow> out_packet" where
  "writeString p v = (case p of Packet_new ccc buffer \<Rightarrow> Packet_new ccc (buffer @ [WString v]))"

definition trade_ref :: "nat option \<Rightarrow> pyval" where
  "trade_ref t = (case t of None \<Rightarrow> VNone | Some a \<Rightarrow> VTrade a)"

text \<open>
  A received frame, as the frame codec decodes it: the opcode pair \<open>CCC\<close> of the
  branch of \<open>handle_packet\<close> it selects, with the fields that branch reads in wire
  order. The branches below are those of the handshake, of the login result and of
  the trade error, start and item frames; \<open>Unhandled\<close> is a frame of the final
  \<open>else\<close>.
\<close>

datatype frame =
    Handshake_ok int int string string int
  | Login_result int string string
  | Trade_error string int
  | Trade_start int
  | Trade_items bool int bool int
  | Unhandled "int \<times> int"

text \<open>\<open>CCC==(26, 3)\<close>: handshake acknowledged.\<close>

definition handshake_ok ::
  "Client \<Rightarrow> nat \<Rightarrow> int \<Rightarrow> int \<Rightarrow> string \<Rightarrow> string \<Rightarrow> int \<Rightarrow> Client \<times> (error + unit)" where
  "handshake_ok c connection online_players fp community' country key =
     (let c1 = c\<lparr>conns := (conns c)(connection := (conns c connection)\<lparr>fingerprint := fp\<rparr>)\<rparr>;
          c2 = c1\<lparr>authkey := Some key\<rparr>;
          c3 = c2\<lparr>trace := trace c2 @ [Scheduled Heartbeat_loop]\<rparr>;
          c4 = send c3 connection (write8 (write8 (Packet_new (8, 2) []) (community c3)) 0);
          os_info = writeString (writeString (Packet_new (28, 17) []) ''en'') ''Linux'';
          os_info = write8 (writeString os_info ''LNX 29,0,0,140'') 0;
          c5 = send c4 connection os_info
      in dispatch c5 ''login_ready'' [VInt online_players, VStr community', VStr country])"

text \<open>\<open>CCC==(31, 6)\<close>: trade error. The loop over \<open>self.trades\<close> ends at the first
  trade whose counterparty has the name.\<close>

fun trade_error_loop :: "Client \<Rightarrow> string \<Rightarrow> int \<Rightarrow> nat list \<Rightarrow> Client \<times> (error + unit)" where
  "trade_error_loop c name' err [] = (c, Inr ())"
| "trade_error_loop c name' err (t # ts) =
     (if username (other (trade_store c t)) = name' then
        (let c1 = Trade_close c t in
         andthen (dispatch c1 ''trade_error'' [VTrade t, VInt err])
           (\<lambda>c2. dispatch c2 ''trade_close'' [VTrade t]))
      else trade_error_loop c name' err ts)"

definition trade_error :: "Client \<Rightarrow> string \<Rightarrow> int \<Rightarrow> Client \<times> (error + unit)" where
  "trade_error c name' err =
     (if name' = [] then
        (case trade c of
           None \<Rightarrow> (c, Inl AttributeError)
         | Some t \<Rightarrow>
             if username (other (trade_store c t)) = name' then
               (let c1 = Trade_close c t in
                andthen (dispatch c1 ''trade_error'' [trade_ref (trade c1), VInt err])
                  (\<lambda>c2. dispatch c2 ''trade_close'' [trade_ref (trade c2)]))
             else (c, Inr ()))
      else trade_error_loop c name' err (trades c))"

text \<open>\<open>CCC==(31, 7)\<close>: trade start.\<close>

definition trade_start :: "Client \<Rightarrow> int \<Rightarrow> Client \<times> (error + unit)" where
  "trade_start c n =
     (case room c of
        None \<Rightarrow> (c, Inl AttributeError)
      | Some r \<Rightarrow>
          (case get_player Player_eq r [(''pid'', VInt n)] of
             Inl e \<Rightarrow> (c, Inl e)
           | Inr None \<Rightarrow> (c, Inl AttributeError)
           | Inr (Some player) \<Rightarrow>
               (case ptrade player of
                  None \<Rightarrow> (c, Inl AttributeError)
                | Some t \<Rightarrow>
                    (let c1 = c\<lparr>trade_store := (trade_store c)(t := (trade_store c t)\<lparr>on_invite := False\<rparr>)\<rparr>;
                         c2 = c1\<lparr>trade_store := (trade_store c1)(t := (trade_store c1 t)\<lparr>alive := True\<rparr>)\<rparr>
                     in andthen
                          (case trade c2 of
                             None \<Rightarrow> (c2, Inr ())
                           | Some u \<Rightarrow> dispatch (Trade_close c2 u) ''trade_close'' [VTrade u])
                          (\<lambda>c3. let c4 = c3\<lparr>trade := ptrade player\<rparr>
                                in dispatch c4 ''trade_start'' [trade_ref (trade c4)])))))"

text \<open>\<open>CCC==(31, 8)\<close>: trade items.\<close>

definition trade_items :: "Client \<Rightarrow> bool \<Rightarrow> int \<Rightarrow> bool \<Rightarrow> int \<Rightarrow> Client \<times> (error + unit)" where
  "trade_items c me ident adding quantity =
     (let quantity = (if adding then 1 else - 1) * quantity in
      case trade c of
        None \<Rightarrow> (c, Inl AttributeError)
      | Some t \<Rightarrow>
          (let tr = trade_store c t;
               items = (if me then items_me tr else items_other tr);
               items = (case items ident of
                          Some q \<Rightarrow> items(ident \<mapsto> q + quantity)
                        | None \<Rightarrow> items(ident \<mapsto> quantity));
               items = (if items ident = Some 0 then items(ident := None) else items);
               tr = (if me then tr\<lparr>items_me := items\<rparr> else tr\<lparr>items_other := items\<rparr>);
               tr = tr\<lparr>locked_me := False\<rparr>;
               tr = tr\<lparr>locked_other := False\<rparr>;
               c1 = c\<lparr>trade_store := (trade_store c)(t := tr)\<rparr>
           in dispatch c1 ''trade_item_change''
                [VTrade t, (if me then VClient else VPlayer (other tr)), VInt ident, VInt quantity,
                 VInt (case items ident of Some q \<Rightarrow> q | None \<Rightarrow> 0)]))"

text \<open>\<open>handle_packet\<close>: the chain over \<open>CCC\<close>. A branch that runs to its end returns
  \<open>True\<close>; the final \<open>else\<close> returns \<open>False\<close>.\<close>

definition handle_packet :: "Client \<Rightarrow> nat \<Rightarrow> frame \<Rightarrow> Client \<times> (error + bool)" where
  "handle_packet c connection packet =
     (case packet of
        Handshake_ok online_players fp community' country key \<Rightarrow>
          andthen (handshake_ok c connection online_players fp community' country key)
            (\<lambda>c'. (c', Inr True))
      | Login_result code a b \<Rightarrow>
          andthen (dispatch c ''login_result'' [VInt code, VStr a, VStr b]) (\<lambda>c'. (c', Inr True))
      | Trade_error name' err \<Rightarrow> andthen (trade_error c name' err) (\<lambda>c'. (c', Inr True))
      | Trade_start n \<Rightarrow> andthen (trade_start c n) (\<lambda>c'. (c', Inr True))
      | Trade_items me ident adding quantity \<Rightarrow>
          andthen (trade_items c me ident adding quantity) (\<lambda>c'. (c', Inr True))
      | Unhandled ccc \<Rightarrow> (c, Inr False))"

text \<open>\<open>received_data\<close> catches what \<open>handle_packet\<close> raises, so a sequence of frames
  is handled one after the other on the state the previous one left.\<close>

fun handle_packets :: "Client \<Rightarrow> nat \<Rightarrow> frame list \<Rightarrow> Client" where
  "handle_packets c connection [] = c"
| "handle_packets c connection (p # ps) =
     handle_packets (fst (handle_packet c connection p)) connection ps"

text \<open>
  \<open>handle_old_packet\<close>: \<open>oldCCC\<close> is the tuple of the first two bytes of the first
  field, \<open>data\<close> the remaining fields, byte strings that \<open>int\<close> reads as it reads
  text. \<open>list.remove\<close> takes out the first element equal to the player that
  \<open>get_player\<close> returned.
\<close>

definition handle_old_packet :: "Client \<Rightarrow> nat \<Rightarrow> int list \<Rightarrow> string list \<Rightarrow> Client \<times> (error + bool)" where
  "handle_old_packet c connection oldCCC data =
     (if oldCCC = [8, 7] then
        (case room c of
           None \<Rightarrow> (c, Inl AttributeError)
         | Some r \<Rightarrow>
             (case (case data of [] \<Rightarrow> Inl IndexError | d # ds \<Rightarrow> py_int (VStr d)) of
                Inl e \<Rightarrow> (c, Inl e)
              | Inr n \<Rightarrow>
                  (case get_player Player_eq r [(''pid'', VInt n)] of
                     Inl e \<Rightarrow> (c, Inl e)
                   | Inr None \<Rightarrow> (c, Inr True)
                   | Inr (Some player) \<Rightarrow>
                       (let c1 = c\<lparr>room := Some (r\<lparr>players := remove1 player (players r)\<rparr>)\<rparr> in
                        andthen
                          (case ptrade player of
                             None \<Rightarrow> (c1, Inr ())
                           | Some t \<Rightarrow>
                               (case Player_getitem player 1 of
                                  Inl e \<Rightarrow> (c1, Inl e)
                                | Inr q \<Rightarrow>
                                    dispatch (Trade_close c1 t) ''trade_close'' [trade_ref (ptrade q)]))
                          (\<lambda>c2. andthen (dispatch c2 ''player_remove'' [VPlayer player])
                                   (\<lambda>c3. (c3, Inr True)))))))
      else (c, Inr False))"







section \<open>Vocabulary of the properties\<close>

text \<open>A future that holds a result or an exception; \<open>set_result\<close> and
  \<open>set_exception\<close> raise on it.\<close>

definition finished :: "future \<Rightarrow> bool" where
  "finished f = (case f of Result v \<Rightarrow> True | Exception e \<Rightarrow> True | _ \<Rightarrow> False)"

text \<open>
  A waiter that lets the loop of \<open>dispatch\<close> go on to the waiters after it: its
  future is not finished, and it is not a pending waiter with the stop flag whose
  condition holds on the arguments.
\<close>

definition passes :: "(nat \<Rightarrow> future) \<Rightarrow> pyval list \<Rightarrow> waiter \<Rightarrow> bool" where
  "passes fs args w =
     (\<not> finished (fs (fut w)) \<and> \<not> (fs (fut w) = Pending \<and> cond w args = Inr True \<and> stop w))"

text \<open>
  The waiters registered for an event each have a future of their own, none of them
  finished. This is what \<open>wait_for\<close> registers; \<open>dispatch\<close> then raises nothing.
\<close>

definition ok_waiters :: "Client \<Rightarrow> string \<Rightarrow> bool" where
  "ok_waiters c event =
     (case waiters c (''on_'' @ event) of
        None \<Rightarrow> True
      | Some ws \<Rightarrow> distinct (map fut ws) \<and> list_all (\<lambda>w. \<not> finished (futures c (fut w))) ws)"


text \<open>The events dispatched so far, in order, with their arguments.\<close>

fun events_of :: "action list \<Rightarrow> (string \<times> pyval list) list" where
  "events_of [] = []"
| "events_of (Dispatched event args # as) = (event, args) # events_of as"
| "events_of (a # as) = events_of as"

definition events :: "Client \<Rightarrow> (string \<times> pyval list) list" where
  "events c = events_of (trace c)"

text \<open>The item mapping of one side of a trade.\<close>

definition side :: "bool \<Rightarrow> Trade \<Rightarrow> (int \<rightharpoonup> int)" where
  "side me tr = (if me then items_me tr else items_other tr)"

text \<open>
  The signed delta that an item frame carries for a side and an item id: the quantity,
  negated when the \<open>adding\<close> flag is false; and the sum of the deltas of a sequence of
  frames.
\<close>

fun delta_of :: "bool \<Rightarrow> int \<Rightarrow> frame \<Rightarrow> int" where
  "delta_of me ident (Trade_items m i adding quantity) =
     (if m = me \<and> i = ident then (if adding then quantity else - quantity) else 0)"
| "delta_of me ident p = 0"

definition net :: "bool \<Rightarrow> int \<Rightarrow> frame list \<Rightarrow> int" where
  "net me ident ps = sum_list (map (delta_of me ident) ps)"

fun is_item_delta :: "frame \<Rightarrow> bool" where
  "is_item_delta (Trade_items m i adding quantity) = True"
| "is_item_delta p = False"

subsection \<open>Example states\<close>

text \<open>
  A room with Bob, who holds trade 0, Alice, who holds none, and Carol, who holds
  trade 1; a client whose current trade is trade 0 with Bob, both sides locked; and a
  client whose current trade is trade 1 with Carol while trade 0 with Bob is still an
  invitation.
\<close>

definition bob :: Player where
  "bob = \<lparr>username = ''Bob'', id' = 3, pid = 7, ptrade = Some 0\<rparr>"

definition alice :: Player where
  "alice = \<lparr>username = ''Alice'', id' = 4, pid = 9, ptrade = None\<rparr>"

definition carol :: Player where
  "carol = \<lparr>username = ''Carol'', id' = 5, pid = 11, ptrade = Some 1\<rparr>"

definition example_room :: Room where
  "example_room = \<lparr>name = ''en-1'', private' = False, players = [bob, alice, carol]\<rparr>"

definition trading_client :: Client where
  "trading_client =
     (Client_init 0)
       \<lparr>room := Some example_room, trade := Some 0, trades := [0],
        trade_store := (trade_store (Client_init 0))
          (0 := (trade_store (Client_init 0) 0)
             \<lparr>other := bob, alive := True, locked_me := True, locked_other := True\<rparr>)\<rparr>"

definition invited_client :: Client where
  "invited_client =
     (Client_init 0)
       \<lparr>room := Some example_room, trade := Some 1, trades := [1, 0],
        trade_store := (trade_store (Client_init 0))
          (0 := (trade_store (Client_init 0) 0)\<lparr>other := bob, alive := True, on_invite := True\<rparr>,
           1 := (trade_store (Client_init 0) 1)\<lparr>other := carol, alive := True\<rparr>)\<rparr>"

text \<open>Registries built by \<open>wait_for\<close> on a new client: a plain waiter followed by a
  stopping one, a stopping waiter followed by a plain one, one stopping waiter for the
  login result, one plain waiter for the login result, and one waiter whose condition
  raises.\<close>

definition resolved_then_stop :: Client where
  "resolved_then_stop =
     fst (wait_for (fst (wait_for (Client_init 0) ''on_ping'' None False)) ''on_ping'' None True)"

definition two_waiters :: Client where
  "two_waiters =
     fst (wait_for (fst (wait_for (Client_init 0) ''on_ping'' None True)) ''on_ping'' None False)"

definition login_waiter :: Client where
  "login_waiter = fst (wait_for (Client_init 0) ''on_login_result'' None True)"


definition raising :: "pyval list \<Rightarrow> error + bool" where
  "raising args = Inl ValueError"

definition failed_waiter :: Client where
  "failed_waiter = fst (wait_for (Client_init 0) ''on_ping'' (Some raising) False)"

section \<open>The waiter loop\<close>

text \<open>One step of the loop, by the state of the waiter's future.\<close>

lemma run_waiters_Cons_cancelled:
  "fs (fut w) = Cancelled \<Longrightarrow>
   run_waiters args (w # ws) i rem fs = run_waiters args ws (Suc i) (rem @ [i]) fs"
  by (simp add: cancelled_def)

lemma run_waiters_Cons_finished:
  "fs (fut w) \<noteq> Cancelled \<Longrightarrow> fs (fut w) \<noteq> Pending \<Longrightarrow>
   run_waiters args (w # ws) i rem fs =
     (case cond w args of
        Inl e \<Rightarrow> (fs, Raised InvalidStateError)
      | Inr b \<Rightarrow> if b then (fs, Raised InvalidStateError)
                 else run_waiters args ws (Suc i) rem fs)"
  by (simp add: cancelled_def set_result_def set_exception_def split: sum.splits)

lemma run_waiters_Cons_pending:
  "fs (fut w) = Pending \<Longrightarrow>
   run_waiters args (w # ws) i rem fs =
     (case cond w args of
        Inl e \<Rightarrow> run_waiters args ws (Suc i) rem (fs(fut w := Exception e))
      | Inr b \<Rightarrow>
          if b then
            (if stop w then (fs(fut w := Result (payload args)), Stopped i)
             else run_waiters args ws (Suc i) (rem @ [i]) (fs(fut w := Result (payload args))))
          else run_waiters args ws (Suc i) rem fs)"
  by (simp add: cancelled_def set_result_def set_exception_def split: sum.splits)

text \<open>The loop never changes a future that is not pending.\<close>

lemma run_waiters_keeps:
  "fs a \<noteq> Pending \<Longrightarrow> fst (run_waiters args ws i rem fs) a = fs a"
proof (induction ws arbitrary: i rem fs)
  case Nil
  then show ?case by simp
next
  case (Cons w ws)
  have ih1: "fst (run_waiters args ws j r fs) a = fs a" for j r
    using Cons.IH [of fs j r] Cons.prems by simp
  consider (c) "fs (fut w) = Cancelled" | (p) "fs (fut w) = Pending"
    | (f) "fs (fut w) \<noteq> Cancelled" "fs (fut w) \<noteq> Pending" by blast
  then show ?case
  proof cases
    case c
    then show ?thesis
      using ih1 by (simp add: run_waiters_Cons_cancelled del: run_waiters.simps)
  next
    case p
    with Cons.prems have ne: "a \<noteq> fut w" by auto
    have ih2: "fst (run_waiters args ws j r (fs(fut w := v))) a = fs a" for j r v
    proof -
      have e: "(fs(fut w := v)) a \<noteq> Pending" using Cons.prems ne by simp
      have "fst (run_waiters args ws j r (fs(fut w := v))) a = (fs(fut w := v)) a"
        by (rule Cons.IH [where fs = "fs(fut w := v)"]) (rule e)
      then show ?thesis using ne by simp
    qed
    show ?thesis
      using ih1 ih2 ne
      by (simp add: run_waiters_Cons_pending p del: run_waiters.simps split: sum.splits)
  next
    case f
    then show ?thesis
      using ih1
      by (simp add: run_waiters_Cons_finished del: run_waiters.simps split: sum.splits)
  qed
qed

lemma not_finished_cases:
  "\<not> finished f \<Longrightarrow> f = Pending \<or> f = Cancelled"
  by (cases f) (simp_all add: finished_def)

text \<open>
  A pending waiter whose condition holds is resolved with the payload when every
  waiter before it lets the loop pass; if it has the stop flag, the loop ends at its
  index.
\<close>

lemma run_waiters_resolves:
  assumes "k < length ws"
    and "distinct (map fut (take (Suc k) ws))"
    and "fs (fut (ws ! k)) = Pending"
    and "cond (ws ! k) args = Inr True"
    and "list_all (passes fs args) (take k ws)"
  shows "fst (run_waiters args ws i rem fs) (fut (ws ! k)) = Result (payload args)
       \<and> (stop (ws ! k) \<longrightarrow> snd (run_waiters args ws i rem fs) = Stopped (i + k))"
  using assms
proof (induction ws arbitrary: k i rem fs)
  case Nil
  then show ?case by simp
next
  case (Cons w ws)
  show ?case
  proof (cases k)
    case 0
    have p: "fs (fut w) = Pending" and t: "cond w args = Inr True"
      using Cons.prems 0 by simp_all
    have k: "fst (run_waiters args ws j r (fs(fut w := Result (payload args)))) (fut w)
               = Result (payload args)" for j r
      by (simp add: run_waiters_keeps)
    show ?thesis
      using 0 t k
      by (simp add: run_waiters_Cons_pending p del: run_waiters.simps)
  next
    case (Suc j)
    let ?v = "ws ! j"
    from Cons.prems Suc have j: "j < length ws" by simp
    from Cons.prems Suc have d: "distinct (map fut (take (Suc j) ws))" by simp
    have "?v \<in> set (take (Suc j) ws)"
      using j by (metis in_set_conv_nth length_take lessI min.absorb2 nth_take Suc_leI)
    with Cons.prems(2) Suc have ne: "fut w \<noteq> fut ?v" by auto
    from Cons.prems Suc have pv: "fs (fut ?v) = Pending" and tv: "cond ?v args = Inr True"
      by simp_all
    from Cons.prems Suc have pw: "passes fs args w"
      and rest: "list_all (passes fs args) (take j ws)" by simp_all
    have sub: "set (take j ws) \<subseteq> set (take (Suc j) ws)"
      by (rule set_take_subset_set_take) simp
    have ni: "fut u \<noteq> fut w" if "u \<in> set (take j ws)" for u
    proof -
      from that sub have "fut u \<in> fut ` set (take (Suc j) ws)" by blast
      with Cons.prems(2) Suc show ?thesis by auto
    qed
    have rest': "list_all (passes (fs(fut w := x)) args) (take j ws)" for x
      using rest ni by (simp add: list_all_iff passes_def)
    have ih1: "fst (run_waiters args ws i' r fs) (fut ?v) = Result (payload args)
       \<and> (stop ?v \<longrightarrow> snd (run_waiters args ws i' r fs) = Stopped (i' + j))" for i' r
      by (rule Cons.IH [OF j d pv tv rest])
    have ih2: "fst (run_waiters args ws i' r (fs(fut w := x))) (fut ?v) = Result (payload args)
       \<and> (stop ?v \<longrightarrow> snd (run_waiters args ws i' r (fs(fut w := x))) = Stopped (i' + j))" for i' r x
    proof (rule Cons.IH [OF j d _ tv rest'])
      show "(fs(fut w := x)) (fut ?v) = Pending" using ne pv by simp
    qed
    from pw have "fs (fut w) = Pending \<or> fs (fut w) = Cancelled"
      by (simp add: passes_def not_finished_cases)
    then show ?thesis
    proof
      assume p: "fs (fut w) = Pending"
      with pw have ns: "cond w args = Inr True \<Longrightarrow> \<not> stop w" by (simp add: passes_def)
      show ?thesis
        using Suc ih1 ih2 ns
        by (simp add: run_waiters_Cons_pending p del: run_waiters.simps split: sum.splits)
    next
      assume c: "fs (fut w) = Cancelled"
      show ?thesis
        using Suc ih1
        by (simp add: run_waiters_Cons_cancelled c del: run_waiters.simps)
    qed
  qed
qed

lemma run_waiters_no_raise:
  assumes "distinct (map fut ws)"
    and "list_all (\<lambda>w. \<not> finished (fs (fut w))) ws"
  shows "snd (run_waiters args ws i rem fs) \<noteq> Raised e"
  using assms
proof (induction ws arbitrary: i rem fs)
  case Nil
  then show ?case by simp
next
  case (Cons w ws)
  from Cons.prems have d: "distinct (map fut ws)" and ni: "fut w \<notin> fut ` set ws"
    and nf: "list_all (\<lambda>w. \<not> finished (fs (fut w))) ws" and nw: "\<not> finished (fs (fut w))"
    by auto
  have ne: "fut v \<noteq> fut w" if "v \<in> set ws" for v
    using that ni by (metis imageI)
  have nf': "list_all (\<lambda>v. \<not> finished ((fs(fut w := x)) (fut v))) ws" for x
    using nf ne by (simp add: list_all_iff)
  have ih1: "snd (run_waiters args ws j r fs) \<noteq> Raised e" for j r
    by (rule Cons.IH [OF d nf])
  have ih2: "snd (run_waiters args ws j r (fs(fut w := x))) \<noteq> Raised e" for j r x
    by (rule Cons.IH [OF d nf'])
  from nw have "fs (fut w) = Pending \<or> fs (fut w) = Cancelled"
    by (simp add: not_finished_cases)
  then show ?case
  proof
    assume p: "fs (fut w) = Pending"
    show ?thesis
      using ih1 ih2
      by (simp add: run_waiters_Cons_pending p del: run_waiters.simps split: sum.splits)
  next
    assume c: "fs (fut w) = Cancelled"
    show ?thesis
      using ih1 by (simp add: run_waiters_Cons_cancelled c del: run_waiters.simps)
  qed
qed


section \<open>What \<open>wait_for\<close> and \<open>dispatch\<close> change\<close>

text \<open>\<open>wait_for\<close> puts the new waiter, with a new pending future, at the end of the
  list of its event.\<close>

lemma wait_for_registers:
  "waiters (fst (wait_for c event condition stopPropagation)) (lower event) =
     Some ((case waiters c (lower event) of None \<Rightarrow> [] | Some ws \<Rightarrow> ws) @
           [\<lparr>cond = (case condition of None \<Rightarrow> (\<lambda>a. Inr True) | Some f \<Rightarrow> f),
             fut = snd (wait_for c event condition stopPropagation),
             stop = stopPropagation\<rparr>])
   \<and> futures (fst (wait_for c event condition stopPropagation))
         (snd (wait_for c event condition stopPropagation)) = Pending
   \<and> snd (wait_for c event condition stopPropagation) = future_count c"
  by (simp add: wait_for_def Let_def)

lemma dispatch_fields:
  "room (fst (dispatch c event args)) = room c"
  "trade (fst (dispatch c event args)) = trade c"
  "trades (fst (dispatch c event args)) = trades c"
  "trade_store (fst (dispatch c event args)) = trade_store c"
  "conns (fst (dispatch c event args)) = conns c"
  "community (fst (dispatch c event args)) = community c"
  "authkey (fst (dispatch c event args)) = authkey c"
  "handlers (fst (dispatch c event args)) = handlers c"
  by (simp_all add: dispatch_def Let_def run_handler_def
        split: option.splits prod.splits loop_end.splits)

lemma dispatch_trace:
  "\<exists>rest. trace (fst (dispatch c event args)) = trace c @ Dispatched event args # rest
      \<and> (rest = [] \<or> rest = [Scheduled (Run_event (''on_'' @ event) args)])"
  by (simp add: dispatch_def Let_def run_handler_def
        split: option.splits prod.splits loop_end.splits)

lemma dispatch_ok:
  assumes "ok_waiters c event"
  shows "snd (dispatch c event args) = Inr ()"
proof (cases "waiters c (''on_'' @ event)")
  case None
  then show ?thesis by (simp add: dispatch_def Let_def run_handler_def)
next
  case (Some ws)
  with assms have "\<forall>e. snd (run_waiters args ws 0 [] (futures c)) \<noteq> Raised e"
    by (simp add: ok_waiters_def run_waiters_no_raise)
  then show ?thesis
    using Some
    by (auto simp: dispatch_def Let_def run_handler_def
          split: option.splits prod.splits loop_end.splits)
qed


lemma events_of_append: "events_of (xs @ ys) = events_of xs @ events_of ys"
  by (induction xs rule: events_of.induct) simp_all

lemma dispatch_events:
  "events (fst (dispatch c event args)) = events c @ [(event, args)]"
proof -
  obtain rest where t: "trace (fst (dispatch c event args)) = trace c @ Dispatched event args # rest"
    and r: "rest = [] \<or> rest = [Scheduled (Run_event (''on_'' @ event) args)]"
    using dispatch_trace by blast
  from r have "events_of rest = []" by auto
  with t show ?thesis by (simp add: events_def events_of_append)
qed

lemma events_updates [simp]:
  "events (c\<lparr>trade_store := s\<rparr>) = events c"
  "events (c\<lparr>trade := x\<rparr>) = events c"
  "events (c\<lparr>room := y\<rparr>) = events c"
  by (simp_all add: events_def)

lemma events_Trade_close [simp]: "events (Trade_close c t) = events c"
  by (simp add: events_def Trade_close_def)

lemma ok_waiters_Trade_close [simp]: "ok_waiters (Trade_close c t) event = ok_waiters c event"
  by (simp add: ok_waiters_def Trade_close_def split: option.splits)

lemma ok_waiters_trade_store [simp]: "ok_waiters (c\<lparr>trade_store := s\<rparr>) event = ok_waiters c event"
  by (simp add: ok_waiters_def split: option.splits)

lemma andthen_fst: "fst (andthen r (\<lambda>c'. (c', x))) = fst r"
  by (simp add: andthen_def split: prod.splits sum.splits)

lemma andthen_ok: "snd r = Inr u \<Longrightarrow> andthen r k = k (fst r)"
  by (cases r) (simp add: andthen_def)

lemma andthen_fst_case:
  "fst (andthen r k) = (case snd r of Inl e \<Rightarrow> fst r | Inr u \<Rightarrow> fst (k (fst r)))"
  by (cases r) (simp add: andthen_def split: sum.splits)

lemmas example_defs =
  resolved_then_stop_def two_waiters_def login_waiter_def failed_waiter_def raising_def wait_for_def Client_init_def
  lower_def lower_char_def Let_def

lemmas trading_defs =
  trading_client_def invited_client_def example_room_def bob_def alice_def carol_def
  Client_init_def

section \<open>Waiters resolved by \<open>dispatch\<close>\<close>

text \<open>
  Claim C1, as the code has it. Let a waiter be registered for the event, with a
  pending future and a condition that holds on the arguments of the dispatch. If every
  waiter registered before it for the same event lets the loop pass (none of them has
  a finished future, none of them is a pending waiter with the stop flag whose
  condition holds) and its future is not shared with one of them, then the dispatch
  call itself sets its future to the payload: the single argument, the tuple of the
  arguments when there are several, \<open>None\<close> when there are none. If the waiter has
  the stop flag, the call returns without scheduling the persistent handler: the only
  action of the call is the dispatch itself.
\<close>

theorem dispatch_resolves_waiter:
  assumes "waiters c (''on_'' @ event) = Some ws"
    and "k < length ws"
    and "futures c (fut (ws ! k)) = Pending"
    and "cond (ws ! k) args = Inr True"
    and "list_all (passes (futures c) args) (take k ws)"
    and "distinct (map fut (take (Suc k) ws))"
  shows "futures (fst (dispatch c event args)) (fut (ws ! k)) = Result (payload args)
       \<and> (stop (ws ! k) \<longrightarrow>
            snd (dispatch c event args) = Inr ()
          \<and> trace (fst (dispatch c event args)) = trace c @ [Dispatched event args])"
proof -
  let ?r = "run_waiters args ws 0 [] (futures c)"
  have r: "fst ?r (fut (ws ! k)) = Result (payload args)
       \<and> (stop (ws ! k) \<longrightarrow> snd ?r = Stopped (0 + k))"
    using assms(2) assms(6) assms(3) assms(4) assms(5) by (rule run_waiters_resolves)
  obtain fs out where ro: "?r = (fs, out)" by (cases ?r)
  with r have f: "fs (fut (ws ! k)) = Result (payload args)"
    and s: "stop (ws ! k) \<longrightarrow> out = Stopped k" by simp_all
  show ?thesis
    using assms(1) ro f s
    by (cases out) (auto simp: dispatch_def Let_def run_handler_def)
qed

text \<open>
  The theorem at a waiter registered by \<open>wait_for\<close> with the stop flag for the login
  result, an event whose handler the class defines: the future holds the tuple of the
  three arguments and no handler is scheduled.
\<close>

theorem dispatch_resolves_waiter_witness:
  "waiters login_waiter ''on_login_result'' \<noteq> None
   \<and> futures login_waiter 0 = Pending
   \<and> futures (fst (dispatch login_waiter ''login_result'' [VInt 1, VStr [], VStr []])) 0
       = Result (VTuple [VInt 1, VStr [], VStr []])
   \<and> trace (fst (dispatch login_waiter ''login_result'' [VInt 1, VStr [], VStr []]))
       = [Dispatched ''login_result'' [VInt 1, VStr [], VStr []]]"
  using dispatch_resolves_waiter
    [of login_waiter "''login_result''" "[\<lparr>cond = \<lambda>a. Inr True, fut = 0, stop = True\<rparr>]" 0
        "[VInt 1, VStr [], VStr []]"]
  by (simp add: example_defs payload_def)

text \<open>
  Without the condition on the earlier waiters the statement fails. Two waiters are
  registered for the same event, the first with the stop flag; both conditions hold.
  The dispatch resolves the first and returns, and the second, registered before the
  dispatch with a condition that holds, is still pending afterwards.
\<close>

theorem dispatch_later_waiter_counterexample:
  "fut (the (waiters two_waiters ''on_ping'') ! 1) = 1
   \<and> cond (the (waiters two_waiters ''on_ping'') ! 1) [] = Inr True
   \<and> futures two_waiters 1 = Pending
   \<and> futures (fst (dispatch two_waiters ''ping'' [])) 1 = Pending"
  by (simp add: example_defs dispatch_def cancelled_def set_result_def payload_def)

text \<open>
  Claim C2 asks that every waiter resolved during a dispatch leaves the registry
  before the call returns. The branch that delivers the exception of a condition does
  not add the index to \<open>to_remove\<close>: after the dispatch the future holds the
  exception, the waiter is still registered, and the next dispatch of the event
  evaluates it again and raises \<open>InvalidStateError\<close>.
\<close>

theorem dispatch_keeps_failed_waiter:
  "futures failed_waiter 0 = Pending
   \<and> futures (fst (dispatch failed_waiter ''ping'' [])) 0 = Exception ValueError
   \<and> map_option (map fut) (waiters (fst (dispatch failed_waiter ''ping'' [])) ''on_ping'') = Some [0]
   \<and> snd (dispatch (fst (dispatch failed_waiter ''ping'' [])) ''ping'' []) = Inl InvalidStateError"
  by (simp add: example_defs dispatch_def cancelled_def set_exception_def run_handler_def)

text \<open>
  The early return of a stopping waiter deletes that waiter only: a waiter resolved
  earlier in the same call stays registered with its finished future, and the next
  dispatch raises on it.
\<close>

lemma dispatch_stop_keeps_resolved_waiter:
  "futures (fst (dispatch resolved_then_stop ''ping'' [])) 0 = Result VNone
   \<and> futures (fst (dispatch resolved_then_stop ''ping'' [])) 1 = Result VNone
   \<and> map_option (map fut) (waiters (fst (dispatch resolved_then_stop ''ping'' [])) ''on_ping'') = Some [0]
   \<and> snd (dispatch (fst (dispatch resolved_then_stop ''ping'' [])) ''ping'' []) = Inl InvalidStateError"
  by (simp add: example_defs dispatch_def cancelled_def set_result_def payload_def del_def)

section \<open>Trade item frames\<close>

lemma trade_items_trade: "trade (fst (trade_items c me ident adding quantity)) = trade c"
  by (simp add: trade_items_def Let_def dispatch_fields split: option.splits)

lemma trade_items_store:
  assumes "trade c = Some t"
  shows "trade_store (fst (trade_items c me ident adding quantity)) =
     (trade_store c)(t :=
        (let q = (if adding then quantity else - quantity);
             items = side me (trade_store c t);
             n = (case items ident of None \<Rightarrow> q | Some old \<Rightarrow> old + q);
             items' = (if n = 0 then items(ident := None) else items(ident \<mapsto> n));
             tr = (if me then (trade_store c t)\<lparr>items_me := items'\<rparr>
                   else (trade_store c t)\<lparr>items_other := items'\<rparr>)
         in tr\<lparr>locked_me := False, locked_other := False\<rparr>))"
  using assms
  by (auto simp: trade_items_def Let_def dispatch_fields side_def split: option.splits)

lemma item_delta_step:
  assumes "trade c = Some t" and "side me' (trade_store c t) ident' \<noteq> Some 0"
  shows "side me' (trade_store (fst (handle_packet c connection (Trade_items me ident adding quantity))) t) ident'
       = (let s = (case side me' (trade_store c t) ident' of None \<Rightarrow> 0 | Some q \<Rightarrow> q)
                   + delta_of me' ident' (Trade_items me ident adding quantity)
          in if s = 0 then None else Some s)"
  using assms
  by (cases me'; cases me)
     (auto simp: handle_packet_def andthen_fst trade_items_store Let_def side_def
        split: option.splits)

lemma item_deltas_general:
  assumes "trade c = Some t" and "list_all is_item_delta ps"
    and "side me (trade_store c t) ident \<noteq> Some 0"
  shows "side me (trade_store (handle_packets c connection ps) t) ident
       = (let s = (case side me (trade_store c t) ident of None \<Rightarrow> 0 | Some q \<Rightarrow> q)
                   + net me ident ps
          in if s = 0 then None else Some s)"
  using assms
proof (induction ps arbitrary: c)
  case Nil
  then show ?case by (auto simp: net_def split: option.splits)
next
  case (Cons p ps)
  from Cons.prems obtain m i a q where p: "p = Trade_items m i a q"
    by (cases p) simp_all
  let ?c = "fst (handle_packet c connection p)"
  have t: "trade ?c = Some t"
    using Cons.prems(1) p by (simp add: handle_packet_def andthen_fst trade_items_trade)
  have st: "side me (trade_store ?c t) ident
       = (let s = (case side me (trade_store c t) ident of None \<Rightarrow> 0 | Some q \<Rightarrow> q)
                   + delta_of me ident p
          in if s = 0 then None else Some s)"
    unfolding p using Cons.prems(1) Cons.prems(3) by (rule item_delta_step)
  then have nz: "side me (trade_store ?c t) ident \<noteq> Some 0"
    by (simp add: Let_def)
  from Cons.prems have l: "list_all is_item_delta ps" by simp
  have "side me (trade_store (handle_packets ?c connection ps) t) ident
       = (let s = (case side me (trade_store ?c t) ident of None \<Rightarrow> 0 | Some q \<Rightarrow> q)
                   + net me ident ps
          in if s = 0 then None else Some s)"
    using t l nz by (rule Cons.IH)
  then show ?case
    by (simp add: st Let_def net_def)
qed

text \<open>
  Claim C3. A sequence of item frames is handled on a client that has a current
  trade. For a side and an item id that the side's mapping does not hold at the
  start, the mapping ends with the sum of the signed deltas of the frames for that
  side and id (the quantity, negated when \<open>adding\<close> is false), and holds no entry
  for the id when that sum is zero.
\<close>

theorem item_deltas_net:
  assumes "trade c = Some t" and "list_all is_item_delta ps"
    and "side me (trade_store c t) ident = None"
  shows "side me (trade_store (handle_packets c connection ps) t) ident
       = (if net me ident ps = 0 then None else Some (net me ident ps))"
  using item_deltas_general [of c t ps me ident connection] assms
  by (simp add: Let_def)

text \<open>
  The theorem on four frames: item 10 of my side is added three times and removed
  three times and ends absent, item 11 ends with quantity 2; the frame for the other
  side does not count.
\<close>

theorem item_deltas_net_witness:
  "trade trading_client = Some 0
   \<and> side True (trade_store trading_client 0) 10 = None
   \<and> side True (trade_store
        (handle_packets trading_client 0
           [Trade_items True 10 True 3, Trade_items False 10 True 1, Trade_items True 10 False 3,
            Trade_items True 11 True 2])
        0) 10 = None
   \<and> side True (trade_store
        (handle_packets trading_client 0
           [Trade_items True 10 True 3, Trade_items False 10 True 1, Trade_items True 10 False 3,
            Trade_items True 11 True 2])
        0) 11 = Some 2"
  using item_deltas_net [of trading_client 0
      "[Trade_items True 10 True 3, Trade_items False 10 True 1, Trade_items True 10 False 3,
        Trade_items True 11 True 2]" True 10 0]
    item_deltas_net [of trading_client 0
      "[Trade_items True 10 True 3, Trade_items False 10 True 1, Trade_items True 10 False 3,
        Trade_items True 11 True 2]" True 11 0]
  by (simp add: trading_defs side_def net_def)

text \<open>
  Claim C4. When the client has a current trade, an item frame for either side leaves
  both lock flags of that trade false, whatever they were before, and the trade stays
  current.
\<close>

theorem item_delta_resets_locks:
  assumes "trade c = Some t"
  shows "trade (fst (handle_packet c connection (Trade_items me ident adding quantity))) = Some t
       \<and> \<not> locked_me (trade_store (fst (handle_packet c connection (Trade_items me ident adding quantity))) t)
       \<and> \<not> locked_other (trade_store (fst (handle_packet c connection (Trade_items me ident adding quantity))) t)"
  using assms
  by (simp add: handle_packet_def andthen_fst trade_items_trade trade_items_store Let_def)

text \<open>The theorem on a trade with both locks set and an item frame of the other side.\<close>

theorem item_delta_resets_locks_witness:
  "trade trading_client = Some 0
   \<and> locked_me (trade_store trading_client 0) \<and> locked_other (trade_store trading_client 0)
   \<and> \<not> locked_me (trade_store (fst (handle_packet trading_client 0 (Trade_items False 10 True 1))) 0)
   \<and> \<not> locked_other (trade_store (fst (handle_packet trading_client 0 (Trade_items False 10 True 1))) 0)"
  using item_delta_resets_locks [of trading_client 0 0 False 10 True 1]
  by (simp add: trading_defs)

section \<open>Looking a player up\<close>

lemma comprehension_total: "comprehension (\<lambda>p. Inr (f p)) ps = Inr (filter f ps)"
  by (induction ps) simp_all

lemma comprehension_raises: "ps \<noteq> [] \<Longrightarrow> comprehension (\<lambda>p. Inl e) ps = Inl e"
  by (cases ps) simp_all

lemma find_filter_empty: "filter f ps = [] \<Longrightarrow> find f ps = None"
  by (induction ps) (auto split: if_splits)

lemma find_filter_first: "filter f ps \<noteq> [] \<Longrightarrow> find f ps = Some (hd (filter f ps))"
  by (induction ps) auto

lemma get_player_name:
  assumes "k = ''name'' \<or> k = ''username''"
  shows "get_player eq r [(k, v)] = Inr (find (\<lambda>p. eq p v) (players r))"
  using assms
  by (auto simp: get_player_def get_players_def comprehension_total slice_to_def
        find_filter_empty find_filter_first)

lemma get_player_id:
  assumes "py_int v = Inr n"
  shows "get_player eq r [(''id'', v)] = Inr (find (\<lambda>p. id' p = n) (players r))"
  using assms
  by (simp add: get_player_def get_players_def comprehension_total slice_to_def
        find_filter_empty find_filter_first)

lemma get_player_pid:
  assumes "py_int v = Inr n"
  shows "get_player eq r [(''pid'', v)] = Inr (find (\<lambda>p. pid p = n) (players r))"
  using assms
  by (simp add: get_player_def get_players_def comprehension_total slice_to_def
        find_filter_empty find_filter_first)

lemma get_player_bad_int:
  assumes "py_int v = Inl e"
  shows "get_player eq r [(''id'', v)] = (if players r = [] then Inr None else Inl e)"
    and "get_player eq r [(''pid'', v)] = (if players r = [] then Inr None else Inl e)"
  using assms
  by (simp_all add: get_player_def get_players_def comprehension_raises slice_to_def)

section \<open>Removing a player\<close>

text \<open>
  Claim C5 asks that removing a player who holds a trade closes the trade with one
  trade-close event, and that the old-protocol handler completes without raising.
  The handler reads the trade through the subscript \<open>player[1]\<close>. On the frame that
  removes Bob, who holds trade 0, it takes Bob out of the room and then raises
  \<open>TypeError\<close>: the trade is still alive and no event has been dispatched.
\<close>

theorem remove_player_raises:
  "get_player Player_eq example_room [(''pid'', VInt 7)] = Inr (Some bob)
   \<and> ptrade bob = Some 0
   \<and> alive (trade_store trading_client 0)
   \<and> snd (handle_old_packet trading_client 0 [8, 7] [''7'']) = Inl TypeError
   \<and> map_option players (room (fst (handle_old_packet trading_client 0 [8, 7] [''7''])))
       = Some [alice, carol]
   \<and> alive (trade_store (fst (handle_old_packet trading_client 0 [8, 7] [''7''])) 0)
   \<and> events (fst (handle_old_packet trading_client 0 [8, 7] [''7''])) = []"
  by (simp add: trading_defs handle_old_packet_def get_player_pid int_of_text_def strip_def
        is_space_def digit_val_def Player_getitem_def andthen_def events_def)

section \<open>Trade start\<close>

lemma trade_start_trades:
  "trades (fst (trade_start c n)) = trades c"
  by (simp add: trade_start_def Let_def andthen_fst_case dispatch_fields Trade_close_def
        split: option.splits sum.splits)

lemma trade_start_found:
  assumes "room c = Some r" and "find (\<lambda>p. pid p = n) (players r) = Some player"
    and "ptrade player = Some t"
  shows "trade_start c n =
     (let c2 = c\<lparr>trade_store := (trade_store c)(t := (trade_store c t)\<lparr>on_invite := False, alive := True\<rparr>)\<rparr>
      in andthen
           (case trade c of
              None \<Rightarrow> (c2, Inr ())
            | Some u \<Rightarrow> dispatch (Trade_close c2 u) ''trade_close'' [VTrade u])
           (\<lambda>c3. dispatch (c3\<lparr>trade := Some t\<rparr>) ''trade_start'' [VTrade t]))"
  using assms
  by (simp add: trade_start_def get_player_pid Let_def trade_ref_def cong: option.case_cong)

lemma trade_start_None:
  assumes "room c = Some r" and "find (\<lambda>p. pid p = n) (players r) = Some player"
    and "ptrade player = Some t" and "trade c = None"
  shows "trade (fst (trade_start c n)) = Some t"
    and "\<not> on_invite (trade_store (fst (trade_start c n)) t)"
    and "alive (trade_store (fst (trade_start c n)) t)"
    and "events (fst (trade_start c n)) = events c @ [(''trade_start'', [VTrade t])]"
  using assms(4)
  by (simp_all add: trade_start_found [OF assms(1-3)] andthen_def dispatch_fields
        dispatch_events)

lemma trade_start_Some:
  assumes "room c = Some r" and "find (\<lambda>p. pid p = n) (players r) = Some player"
    and "ptrade player = Some t" and "trade c = Some u" and "u \<noteq> t"
    and "ok_waiters c ''trade_close''"
  shows "trade (fst (trade_start c n)) = Some t"
    and "\<not> on_invite (trade_store (fst (trade_start c n)) t)"
    and "alive (trade_store (fst (trade_start c n)) t)"
    and "\<not> alive (trade_store (fst (trade_start c n)) u)"
    and "events (fst (trade_start c n)) =
           events c @ [(''trade_close'', [VTrade u]), (''trade_start'', [VTrade t])]"
proof -
  let ?c2 = "c\<lparr>trade_store := (trade_store c)(t := (trade_store c t)\<lparr>on_invite := False, alive := True\<rparr>)\<rparr>"
  let ?d = "dispatch (Trade_close ?c2 u) ''trade_close'' [VTrade u]"
  have ok: "snd ?d = Inr ()"
    using assms(6) by (simp add: dispatch_ok)
  have eq: "trade_start c n = dispatch ((fst ?d)\<lparr>trade := Some t\<rparr>) ''trade_start'' [VTrade t]"
    using assms(4) ok
    by (simp add: trade_start_found [OF assms(1-3)] Let_def andthen_ok)
  have ev: "events ((fst ?d)\<lparr>trade := Some t\<rparr>) = events c @ [(''trade_close'', [VTrade u])]"
    by (simp add: dispatch_events)
  show "trade (fst (trade_start c n)) = Some t"
    by (simp add: eq dispatch_fields)
  show "\<not> on_invite (trade_store (fst (trade_start c n)) t)"
    using assms(5) by (simp add: eq dispatch_fields Trade_close_def)
  show "alive (trade_store (fst (trade_start c n)) t)"
    using assms(5) by (simp add: eq dispatch_fields Trade_close_def)
  show "\<not> alive (trade_store (fst (trade_start c n)) u)"
    using assms(5) by (simp add: eq dispatch_fields Trade_close_def)
  show "events (fst (trade_start c n)) =
           events c @ [(''trade_close'', [VTrade u]), (''trade_start'', [VTrade t])]"
    by (simp add: eq dispatch_events ev)
qed

text \<open>
  Claim C6, as the code has it. The handler never adds a trade to the registry, and
  for a player of the room who holds no trade it raises and changes nothing. When
  the frame names a player of the room who already holds a trade, that trade is not
  the current one, and the waiters for the trade-close event are as \<open>wait_for\<close>
  registers them, then the trade of that player becomes the current trade with the
  invite flag cleared and \<open>alive\<close> set; and if the client held another current
  trade, that one is closed and its trade-close event is dispatched before the
  trade-start event of the new one.
\<close>

theorem trade_start_activates:
  "trades (fst (handle_packet c connection (Trade_start n))) = trades c
   \<and> (room c = Some r \<and> find (\<lambda>p. pid p = n) (players r) = Some player
        \<and> ptrade player = Some t \<and> trade c \<noteq> Some t \<and> ok_waiters c ''trade_close'' \<longrightarrow>
      (let c' = fst (handle_packet c connection (Trade_start n)) in
         trade c' = Some t \<and> \<not> on_invite (trade_store c' t) \<and> alive (trade_store c' t)
       \<and> (case trade c of
             None \<Rightarrow> events c' = events c @ [(''trade_start'', [VTrade t])]
           | Some u \<Rightarrow> \<not> alive (trade_store c' u)
               \<and> events c' = events c @ [(''trade_close'', [VTrade u]), (''trade_start'', [VTrade t])])))
   \<and> (room c = Some r \<and> find (\<lambda>p. pid p = n) (players r) = Some player
        \<and> ptrade player = None \<longrightarrow>
      handle_packet c connection (Trade_start n) = (c, Inl AttributeError))"
proof (intro conjI impI)
  show "trades (fst (handle_packet c connection (Trade_start n))) = trades c"
    by (simp add: handle_packet_def andthen_fst trade_start_trades)
next
  assume "room c = Some r \<and> find (\<lambda>p. pid p = n) (players r) = Some player
        \<and> ptrade player = None"
  then show "handle_packet c connection (Trade_start n) = (c, Inl AttributeError)"
    by (simp add: handle_packet_def trade_start_def get_player_pid andthen_def)
next
  assume a: "room c = Some r \<and> find (\<lambda>p. pid p = n) (players r) = Some player
        \<and> ptrade player = Some t \<and> trade c \<noteq> Some t \<and> ok_waiters c ''trade_close''"
  have h: "fst (handle_packet c connection (Trade_start n)) = fst (trade_start c n)"
    by (simp add: handle_packet_def andthen_fst)
  show "let c' = fst (handle_packet c connection (Trade_start n)) in
         trade c' = Some t \<and> \<not> on_invite (trade_store c' t) \<and> alive (trade_store c' t)
       \<and> (case trade c of
             None \<Rightarrow> events c' = events c @ [(''trade_start'', [VTrade t])]
           | Some u \<Rightarrow> \<not> alive (trade_store c' u)
               \<and> events c' = events c @ [(''trade_close'', [VTrade u]), (''trade_start'', [VTrade t])])"
  proof (cases "trade c")
    case None
    with a show ?thesis
      using trade_start_None [of c r n player t]
      by (simp add: h Let_def)
  next
    case (Some u)
    with a have "u \<noteq> t" by auto
    with a Some show ?thesis
      using trade_start_Some [of c r n player t u]
      by (simp add: h Let_def)
  qed
qed

text \<open>The theorem on the client whose current trade is with Carol, at the start of the
  invited trade with Bob.\<close>

theorem trade_start_activates_witness:
  "room invited_client = Some example_room
   \<and> find (\<lambda>p. pid p = 7) (players example_room) = Some bob
   \<and> ptrade bob = Some 0 \<and> trade invited_client = Some 1
   \<and> on_invite (trade_store invited_client 0)
   \<and> trade (fst (handle_packet invited_client 0 (Trade_start 7))) = Some 0
   \<and> \<not> on_invite (trade_store (fst (handle_packet invited_client 0 (Trade_start 7))) 0)
   \<and> alive (trade_store (fst (handle_packet invited_client 0 (Trade_start 7))) 0)
   \<and> \<not> alive (trade_store (fst (handle_packet invited_client 0 (Trade_start 7))) 1)
   \<and> events (fst (handle_packet invited_client 0 (Trade_start 7)))
       = [(''trade_close'', [VTrade 1]), (''trade_start'', [VTrade 0])]
   \<and> trades (fst (handle_packet invited_client 0 (Trade_start 7))) = [1, 0]"
  using trade_start_activates [of invited_client 0 7 example_room bob 0]
  by (simp add: trading_defs ok_waiters_def events_def Let_def)

text \<open>
  A trade-start frame for a player without a trade creates none: for Alice, who is in
  the room and holds no trade, the handler raises \<open>AttributeError\<close>, the registry
  and the current trade are as before, and no event is dispatched.
\<close>

theorem trade_start_without_invite_counterexample:
  "get_player Player_eq example_room [(''pid'', VInt 9)] = Inr (Some alice)
   \<and> ptrade alice = None
   \<and> snd (handle_packet trading_client 0 (Trade_start 9)) = Inl AttributeError
   \<and> trades (fst (handle_packet trading_client 0 (Trade_start 9))) = [0]
   \<and> trade (fst (handle_packet trading_client 0 (Trade_start 9))) = Some 0
   \<and> events (fst (handle_packet trading_client 0 (Trade_start 9))) = []"
  by (simp add: trading_defs handle_packet_def trade_start_def get_player_pid andthen_def
        events_def)

section \<open>Trade error\<close>

text \<open>A frame with the name of the counterparty of a registered trade closes the first
  such trade and dispatches the error event with the code, then the close event.\<close>

lemma trade_error_loop_found:
  assumes "find (\<lambda>t. username (other (trade_store c t)) = name') ts = Some t"
    and "ok_waiters c ''trade_error''"
  shows "\<not> alive (trade_store (fst (trade_error_loop c name' err ts)) t)
       \<and> events (fst (trade_error_loop c name' err ts)) =
           events c @ [(''trade_error'', [VTrade t, VInt err]), (''trade_close'', [VTrade t])]"
  using assms
proof (induction ts)
  case Nil
  then show ?case by simp
next
  case (Cons a ts)
  show ?case
  proof (cases "username (other (trade_store c a)) = name'")
    case True
    with Cons.prems have at: "a = t" by simp
    let ?d = "dispatch (Trade_close c t) ''trade_error'' [VTrade t, VInt err]"
    have ok: "snd ?d = Inr ()"
      using Cons.prems(2) by (simp add: dispatch_ok)
    have eq: "trade_error_loop c name' err (a # ts) = dispatch (fst ?d) ''trade_close'' [VTrade t]"
      using True at ok by (simp add: Let_def andthen_ok)
    show ?thesis
      unfolding eq by (simp add: dispatch_fields dispatch_events Trade_close_def)
  next
    case False
    with Cons show ?thesis by simp
  qed
qed

lemma trade_error_named:
  assumes "name' \<noteq> []"
    and "find (\<lambda>t. username (other (trade_store c t)) = name') (trades c) = Some t"
    and "ok_waiters c ''trade_error''"
  shows "\<not> alive (trade_store (fst (handle_packet c connection (Trade_error name' err))) t)
       \<and> events (fst (handle_packet c connection (Trade_error name' err))) =
           events c @ [(''trade_error'', [VTrade t, VInt err]), (''trade_close'', [VTrade t])]"
  using assms(1) trade_error_loop_found [OF assms(2) assms(3), of err]
  by (simp add: handle_packet_def andthen_fst trade_error_def)

lemma trade_error_named_example:
  "\<not> alive (trade_store (fst (handle_packet trading_client 0 (Trade_error ''Bob'' 3))) 0)
   \<and> events (fst (handle_packet trading_client 0 (Trade_error ''Bob'' 3)))
       = [(''trade_error'', [VTrade 0, VInt 3]), (''trade_close'', [VTrade 0])]"
  using trade_error_named [of "''Bob''" trading_client 0 0 3]
  by (simp add: trading_defs ok_waiters_def events_def)

text \<open>
  Claim C7 asks the same of the frame with the empty name, which stands for the
  current trade. That branch closes the current trade only if the username of its
  counterparty equals the empty name. On the client trading with Bob the frame is
  reported as handled, the trade stays alive and current, and neither event is
  dispatched.
\<close>

theorem trade_error_empty_name_ignored:
  "trade trading_client = Some 0
   \<and> alive (trade_store trading_client 0)
   \<and> snd (handle_packet trading_client 0 (Trade_error [] 3)) = Inr True
   \<and> trade (fst (handle_packet trading_client 0 (Trade_error [] 3))) = Some 0
   \<and> alive (trade_store (fst (handle_packet trading_client 0 (Trade_error [] 3))) 0)
   \<and> events (fst (handle_packet trading_client 0 (Trade_error [] 3))) = []"
  by (simp add: trading_defs handle_packet_def trade_error_def andthen_def events_def)

section \<open>Login result\<close>




section \<open>Handshake\<close>



section \<open>\<open>get_player\<close>\<close>

text \<open>
  Claim C10, as the code has it. Without an identifier, or with more than one,
  \<open>get_player\<close> raises \<open>AiotfmException\<close>. With the single identifier \<open>name\<close> or
  \<open>username\<close> it returns the first player equal to the value, or \<open>None\<close>. With the
  single identifier \<open>id\<close> or \<open>pid\<close> and a value that \<open>int\<close> converts, it returns
  the first player with that id or pid, or \<open>None\<close>; with a value that \<open>int\<close>
  rejects, the exception of \<open>int\<close> is raised as soon as the room has a player.
  \<open>get_player\<close> is a function of the room and returns no new room: the list of
  players is as before in every case.
\<close>

theorem get_player_cases:
  "(length kwargs = 0 \<or> 1 < length kwargs \<longrightarrow>
      (\<exists>msg. get_player eq r kwargs = Inl (AiotfmException msg)))
   \<and> (k = ''name'' \<or> k = ''username'' \<longrightarrow>
        get_player eq r [(k, v)] = Inr (find (\<lambda>p. eq p v) (players r)))
   \<and> (py_int v = Inr n \<longrightarrow>
        get_player eq r [(''id'', v)] = Inr (find (\<lambda>p. id' p = n) (players r))
      \<and> get_player eq r [(''pid'', v)] = Inr (find (\<lambda>p. pid p = n) (players r)))
   \<and> (py_int v = Inl e \<longrightarrow>
        get_player eq r [(''id'', v)] = (if players r = [] then Inr None else Inl e)
      \<and> get_player eq r [(''pid'', v)] = (if players r = [] then Inr None else Inl e))"
proof -
  have 1: "length kwargs = 0 \<or> 1 < length kwargs \<longrightarrow>
      (\<exists>msg. get_player eq r kwargs = Inl (AiotfmException msg))"
    by (auto simp: get_player_def)
  show ?thesis
    using 1 get_player_name [of k eq r v] get_player_id [of v n eq r] get_player_pid [of v n eq r]
      get_player_bad_int [of v e eq r]
    by blast
qed

text \<open>The theorem in the example room, once for each of its cases.\<close>

theorem get_player_cases_witness:
  "(\<exists>msg. get_player Player_eq example_room [] = Inl (AiotfmException msg))
   \<and> (\<exists>msg. get_player Player_eq example_room [(''id'', VInt 3), (''pid'', VInt 7)]
        = Inl (AiotfmException msg))
   \<and> get_player Player_eq example_room [(''name'', VStr ''Alice'')] = Inr (Some alice)
   \<and> get_player Player_eq example_room [(''username'', VStr ''Dave'')] = Inr None
   \<and> get_player Player_eq example_room [(''id'', VStr ''3'')] = Inr (Some bob)
   \<and> get_player Player_eq example_room [(''pid'', VInt 9)] = Inr (Some alice)
   \<and> get_player Player_eq example_room [(''pid'', VNone)] = Inl TypeError"
  using get_player_cases [of "[]" Player_eq example_room "''name''" "VStr ''Alice''" 0 ValueError]
    get_player_cases [of "[(''id'', VInt 3), (''pid'', VInt 7)]" Player_eq example_room
      "''username''" "VStr ''Dave''" 0 ValueError]
    get_player_cases [of "[]" Player_eq example_room "''name''" "VStr ''3''" 3 ValueError]
    get_player_cases [of "[]" Player_eq example_room "''name''" "VInt 9" 9 ValueError]
    get_player_cases [of "[]" Player_eq example_room "''name''" "VNone" 0 TypeError]
  by (simp add: trading_defs Player_eq_def int_of_text_def strip_def is_space_def digit_val_def)

text \<open>
  With the single identifier \<open>id\<close> and the value \<open>'abc'\<close> the call neither returns
  a player nor \<open>None\<close>: in a room with players it raises \<open>ValueError\<close>.
\<close>

theorem get_player_bad_id_counterexample:
  "players example_room = [bob, alice, carol]
   \<and> get_player Player_eq example_room [(''id'', VStr ''abc'')] = Inl ValueError"
  by (simp add: trading_defs get_player_def get_players_def int_of_text_def strip_def
        is_space_def digit_val_def)

end
